theory Spec2Isabelle
  imports Main "HOL-Library.Word"
begin

section \<open>Values, exceptions and observable events\<close>

text \<open>
  The script \<^verbatim>\<open>transfer.ts\<close> reads the public \<^verbatim>\<open>uint256 number\<close> of the Counter
  contract through ethers. A \<^verbatim>\<open>BigNumber\<close> returned by that getter is modelled by the
  256-bit unsigned value it holds, so that \<^verbatim>\<open>a.eq(b)\<close> is equality of the held values.
\<close>

type_synonym uint256 = "256 word"

definition BigNumber_eq :: "uint256 \<Rightarrow> uint256 \<Rightarrow> bool" where
  "BigNumber_eq a b \<longleftrightarrow> a = b"

text \<open>A JavaScript \<^verbatim>\<open>Error\<close> with its message; a rejected promise carries one.\<close>

datatype exn = Error string

text \<open>
  The arguments of a \<^verbatim>\<open>console.log\<close> call: string literals (and the literal parts of a
  template string) are kept as they are in the source; values that a library renders are
  kept as values: \<open>Big v\<close> is a \<^verbatim>\<open>BigNumber\<close> printed in decimal, \<open>DateOf n\<close> stands for
  \<^verbatim>\<open>new Date(n).toString()\<close>, \<open>Err e\<close> is a caught exception and \<open>Obj s\<close> an object of
  the SDK as the console prints it.
\<close>

datatype arg = Str string | Big uint256 | DateOf int | Err exn | Obj string

text \<open>
  What the process does to the outside world, in program order:
  \<^item> \<open>Log\<close>: one \<^verbatim>\<open>console.log\<close> call;
  \<^item> \<open>Sleep ms\<close>: \<^verbatim>\<open>await sleep(ms)\<close>;
  \<^item> \<open>ReadNumber\<close>: one call of \<^verbatim>\<open>counterContract.number()\<close> on the destination chain;
  \<^item> \<open>NewProvider url\<close>: \<^verbatim>\<open>new providers.JsonRpcProvider(url)\<close>;
  \<^item> \<open>SdkInit\<close>, \<open>GetFee\<close>, \<open>BuildTransferTransaction\<close>: the awaited calls on the
    \<^verbatim>\<open>EVMGenericMessageTransfer\<close> object;
  \<^item> \<open>SendTransaction\<close>: \<^verbatim>\<open>wallet.sendTransaction\<close>, the submission of the transfer;
  \<^item> \<open>SetInterval ms\<close>: the registration of the status callback;
  \<^item> \<open>Tick ms\<close>: one period of the interval elapses and the callback fires;
  \<^item> \<open>GetStatus h\<close>: one call of \<^verbatim>\<open>getTransferStatusData(Environment.TESTNET, h)\<close>;
  \<^item> \<open>ClearInterval\<close>: \<^verbatim>\<open>clearInterval(id)\<close>.
\<close>

datatype event =
    Log "arg list"
  | Sleep nat
  | ReadNumber
  | NewProvider string
  | SdkInit
  | GetFee
  | BuildTransferTransaction
  | SendTransaction
  | SetInterval nat
  | Tick nat
  | GetStatus string
  | ClearInterval

text \<open>
  An awaited computation: the events it produced, and either the exception it threw
  (\<open>Inl\<close>) or the value it returned (\<open>Inr\<close>).
\<close>

type_synonym 'a io = "event list \<times> (exn + 'a)"

fun prepend :: "event list \<Rightarrow> event list \<times> 'r \<Rightarrow> event list \<times> 'r" where
  "prepend t (t', r) = (t @ t', r)"

section \<open>The completion watcher: \<^verbatim>\<open>waitUntilBridged\<close>\<close>

text \<open>
  \<^verbatim>\<open>
  let i = 0;
  for (;;) {
    await sleep(intervalDuration);
    contractValueAfter = await fetchAfterValue();
    if (!contractValueAfter.eq(valueBefore)) {
      console.log("Transaction successfully bridged.");
      console.log(`Value after update: ${new Date(contractValueAfter.toNumber()).toString()}`);
      break;
    }
    i++;
    if (i > attempts) {
      console.log("transaction is taking too much time to bridge!");
      break;
    }
  }
  \<close>
  The loop, from the counter value \<open>i\<close>. Two things come from outside the repository and
  are parameters:
  \<^item> \<open>toNumber\<close>, the conversion \<^verbatim>\<open>BigNumber.toNumber()\<close> of ethers, which returns a
    JavaScript number or throws;
  \<^item> \<open>fetchAfterValue\<close>, the destination chain: \<open>fetchAfterValue k\<close> is what the
    \<open>k\<close>-th call (from 0) of \<^verbatim>\<open>fetchAfterValue()\<close> inside the loop gives, a value or
    a rejection. The loop reads once per iteration and \<open>i\<close> grows by one per completed
    iteration, so the read of the iteration with counter \<open>i\<close> is read number \<open>i\<close>.

  \<open>attempts\<close> is a JavaScript number and may be negative; the counter \<open>i\<close> starts at 0
  and only grows. The function returns \<^verbatim>\<open>void\<close> on both \<^verbatim>\<open>break\<close>s: which of the two
  happened is visible in the log only.
\<close>

function waitLoop ::
  "(uint256 \<Rightarrow> exn + int) \<Rightarrow> (nat \<Rightarrow> exn + uint256) \<Rightarrow> uint256 \<Rightarrow> nat \<Rightarrow> int \<Rightarrow> nat \<Rightarrow> unit io"
where
  "waitLoop toNumber fetchAfterValue valueBefore intervalDuration attempts i =
     prepend [Sleep intervalDuration, ReadNumber]
       (case fetchAfterValue i of
          Inl e \<Rightarrow> ([], Inl e)
        | Inr contractValueAfter \<Rightarrow>
            if \<not> BigNumber_eq contractValueAfter valueBefore then
              prepend [Log [Str ''Transaction successfully bridged.'']]
                (case toNumber contractValueAfter of
                   Inl e \<Rightarrow> ([], Inl e)
                 | Inr n \<Rightarrow> ([Log [Str ''Value after update: '', DateOf n]], Inr ()))
            else if int (Suc i) > attempts then
              ([Log [Str ''transaction is taking too much time to bridge!'']], Inr ())
            else
              waitLoop toNumber fetchAfterValue valueBefore intervalDuration attempts (Suc i))"
  by pat_completeness auto
termination
  by (relation "measure (\<lambda>(_, _, _, _, attempts, i). nat (attempts - int i))") auto

declare waitLoop.simps [simp del]

definition waitUntilBridged ::
  "(uint256 \<Rightarrow> exn + int) \<Rightarrow> (nat \<Rightarrow> exn + uint256) \<Rightarrow> uint256 \<Rightarrow> nat \<Rightarrow> int \<Rightarrow> unit io"
where
  "waitUntilBridged toNumber fetchAfterValue valueBefore intervalDuration attempts =
     waitLoop toNumber fetchAfterValue valueBefore intervalDuration attempts 0"

text \<open>The default arguments of \<^verbatim>\<open>waitUntilBridged\<close>.\<close>

definition default_intervalDuration :: nat where
  "default_intervalDuration = 15000"

definition default_attempts :: int where
  "default_attempts = 8"

subsection \<open>Reading a trace\<close>

definition reads_performed :: "event list \<Rightarrow> nat" where
  "reads_performed t = length (filter (\<lambda>ev. ev = ReadNumber) t)"

definition success_line :: event where
  "success_line = Log [Str ''Transaction successfully bridged.'']"

definition timeout_line :: event where
  "timeout_line = Log [Str ''transaction is taking too much time to bridge!'']"

definition reports_success :: "event list \<Rightarrow> bool" where
  "reports_success t \<longleftrightarrow> success_line \<in> set t"

definition reports_timeout :: "event list \<Rightarrow> bool" where
  "reports_timeout t \<longleftrightarrow> timeout_line \<in> set t"

text \<open>\<open>polls k ms\<close>: \<open>k\<close> iterations that slept, read and went on.\<close>

fun polls :: "nat \<Rightarrow> nat \<Rightarrow> event list" where
  "polls 0 ms = []"
| "polls (Suc k) ms = Sleep ms # ReadNumber # polls k ms"


section \<open>The status poller: the \<^verbatim>\<open>setInterval\<close> callback\<close>

text \<open>
  A \<^verbatim>\<open>TransferStatusResponse\<close> of the SDK; the script reads its \<^verbatim>\<open>status\<close> only.
\<close>

record TransferStatusResponse =
  status :: string

text \<open>
  How the process stands: an exception nobody caught, \<^verbatim>\<open>process.exit(code)\<close>, or still
  alive with the interval armed.
\<close>

datatype outcome = Uncaught exn | Exit nat | Running

text \<open>
  \<^verbatim>\<open>
  getStatus(response.hash)
    .then((data) => {
      if (data[0]) {
        console.log("Status of the transfer", data[0].status);
        if(data[0].status == "executed") {
          clearInterval(id);
          process.exit(0);
        }
      } else {
        console.log("Waiting for the TX to be indexed");
      }
    })
    .catch((e) => {
      console.log("error:", e);
    });
  \<close>
  The argument is what \<^verbatim>\<open>getStatus\<close> settled with: a rejection, or the array of records.
  \<^verbatim>\<open>data[0]\<close> of an empty array is \<^verbatim>\<open>undefined\<close>, which is falsy; a record is truthy.
\<close>

definition status_callback :: "exn + TransferStatusResponse list \<Rightarrow> event list \<times> outcome" where
  "status_callback settled =
     (case settled of
        Inr data \<Rightarrow>
          (case data of
             d # _ \<Rightarrow>
               prepend [Log [Str ''Status of the transfer'', Str (status d)]]
                 (if status d = ''executed'' then ([ClearInterval], Exit 0) else ([], Running))
           | [] \<Rightarrow> ([Log [Str ''Waiting for the TX to be indexed'']], Running))
      | Inl e \<Rightarrow> ([Log [Str ''error:'', Err e]], Running))"

text \<open>
  \<^verbatim>\<open>setInterval(callback, 5000)\<close>, run against the answers that the status API gives to
  the successive ticks (each query is taken to settle before the next tick). The list is
  the part of the API's answers that is looked at: when it is used up and the process has
  not exited, the interval is still armed (\<open>Running\<close>). After \<^verbatim>\<open>process.exit\<close> nothing
  more happens.
\<close>

definition status_period :: nat where
  "status_period = 5000"

fun poll :: "string \<Rightarrow> (exn + TransferStatusResponse list) list \<Rightarrow> event list \<times> outcome" where
  "poll hash [] = ([], Running)"
| "poll hash (settled # later) =
     prepend [Tick status_period, GetStatus hash]
       (case status_callback settled of
          (t, Running) \<Rightarrow> prepend t (poll hash later)
        | (t, stopped) \<Rightarrow> (t, stopped))"

section \<open>The script: module initialisation and \<^verbatim>\<open>genericMessage\<close>\<close>

text \<open>
  Everything the run takes from outside: the environment variables (after
  \<^verbatim>\<open>dotenv.config()\<close>), the ethers library, the two chains, the SDK and the status API.
  Each awaited call has its result here, a rejection or a value.
\<close>

record world =
  process_env :: "string \<Rightarrow> string option"
  new_Wallet :: "string \<Rightarrow> exn + string"
  BigNumber_toNumber :: "uint256 \<Rightarrow> exn + int"
  counter_number_before :: "exn + uint256"
  counter_number_polled :: "nat \<Rightarrow> exn + uint256"
  counter_number_final :: "exn + uint256"
  messageTransfer_init :: "exn + unit"
  messageTransfer_create :: "exn + unit"
  messageTransfer_getFee :: "exn + string"
  messageTransfer_build :: "exn + unit"
  wallet_sendTransaction :: "exn + string"
  status_answers :: "(exn + TransferStatusResponse list) list"

definition EXECUTE_CONTRACT_ADDRESS :: string where
  "EXECUTE_CONTRACT_ADDRESS = ''0x303e46f108ed47bf5a489cf62926fd3d8ddcc72a''"

text \<open>\<^verbatim>\<open>process.env.X || d\<close>: the default replaces a missing and an empty value.\<close>

definition or_default :: "string option \<Rightarrow> string \<Rightarrow> string" where
  "or_default x d = (case x of None \<Rightarrow> d | Some s \<Rightarrow> if s = [] then d else s)"

definition SEPOLIA_RPC_URL :: "world \<Rightarrow> string" where
  "SEPOLIA_RPC_URL w = or_default (process_env w ''BASE_SEPOLIA_RPC_URL'') ''https://sepolia.drpc.org''"

definition HOLESKY_RPC_URL :: "world \<Rightarrow> string" where
  "HOLESKY_RPC_URL w = or_default (process_env w ''HOLESKY_RPC_URL'') ''https://holesky.drpc.org''"

text \<open>Sequencing of awaited steps: the first exception ends the computation.\<close>

definition and_then :: "'a io \<Rightarrow> ('a \<Rightarrow> 'b io) \<Rightarrow> 'b io" where
  "and_then m f = (case m of (t, Inl e) \<Rightarrow> (t, Inl e) | (t, Inr x) \<Rightarrow> prepend t (f x))"

text \<open>
  The statements of the module outside \<^verbatim>\<open>genericMessage\<close>, in order: the check of
  \<^verbatim>\<open>PRIVATE_KEY\<close> (\<^verbatim>\<open>!privateKey\<close> holds for a missing and for an empty variable), the two
  providers, the contract, the wallet (whose constructor throws on a malformed key).
  Returns the wallet's address.
\<close>

definition module_init :: "world \<Rightarrow> string io" where
  "module_init w =
     (case process_env w ''PRIVATE_KEY'' of
        None \<Rightarrow> ([], Inl (Error ''Missing environment variable: PRIVATE_KEY''))
      | Some privateKey \<Rightarrow>
          if privateKey = [] then ([], Inl (Error ''Missing environment variable: PRIVATE_KEY''))
          else
            and_then
              ([NewProvider (HOLESKY_RPC_URL w), NewProvider (SEPOLIA_RPC_URL w),
                Log [Str ''Connected to contract: '', Str EXECUTE_CONTRACT_ADDRESS]],
               new_Wallet w privateKey)
              (\<lambda>address. ([Log [Str ''Fetching contract value...'']], Inr address)))"

text \<open>
  \<^verbatim>\<open>genericMessage\<close>, statement by statement. The watcher is awaited with its default
  arguments before \<^verbatim>\<open>setInterval\<close> is reached. The JavaScript function returns nothing;
  the model returns the transaction hash that the interval's callback has captured, for
  the ticks that follow. The read of the final value is issued right after the interval
  is registered, one period before the first tick; it is taken to settle before that tick.
\<close>

definition genericMessage :: "world \<Rightarrow> string io" where
  "genericMessage w =
     and_then ([Log [Str ''Sending a generic message transfer...''], ReadNumber],
               counter_number_before w) (\<lambda>contractValueBefore.
     and_then ([Log [Str ''Value before update: '', Big contractValueBefore], SdkInit],
               messageTransfer_init w) (\<lambda>_.
     and_then ([], messageTransfer_create w) (\<lambda>_.
     and_then ([GetFee], messageTransfer_getFee w) (\<lambda>fee.
     and_then ([Log [Str ''Fee for the transfer: '', Obj fee], BuildTransferTransaction],
               messageTransfer_build w) (\<lambda>_.
     and_then ([SendTransaction], wallet_sendTransaction w) (\<lambda>hash.
     and_then (prepend [Log [Str ''Sent transfer with hash: '', Str hash],
                        Log [Str ''Waiting for relayers to bridge transaction...'']]
                 (waitUntilBridged (BigNumber_toNumber w) (counter_number_polled w)
                    contractValueBefore default_intervalDuration default_attempts)) (\<lambda>_.
     and_then ([SetInterval status_period, ReadNumber], counter_number_final w) (\<lambda>finalValue.
       ([Log [Str ''Final value: '', Big finalValue]], Inr hash)))))))))"

text \<open>
  The whole process: the module's statements, then \<^verbatim>\<open>genericMessage().finally(() => {})\<close>,
  then the ticks of the interval if \<^verbatim>\<open>genericMessage\<close> returned. An exception at module
  level or a rejection of \<^verbatim>\<open>genericMessage\<close> is caught by nobody and ends the run.
\<close>

definition script :: "world \<Rightarrow> event list \<times> outcome" where
  "script w =
     (case module_init w of
        (t, Inl e) \<Rightarrow> (t, Uncaught e)
      | (t, Inr _) \<Rightarrow>
          prepend t
            (case genericMessage w of
               (t', Inl e) \<Rightarrow> (t', Uncaught e)
             | (t', Inr hash) \<Rightarrow> prepend t' (poll hash (status_answers w))))"

section \<open>Observations on traces\<close>

text \<open>
  How a run of the loop ended, after \<open>n\<close> reads of which the last was read number \<open>k\<close>:
  the read was rejected; the value had changed and the conversion threw; the value had
  changed and was reported; or the value was unchanged and the attempts were used up.
\<close>

definition loop_ends ::
  "(uint256 \<Rightarrow> exn + int) \<Rightarrow> (nat \<Rightarrow> exn + uint256) \<Rightarrow> uint256 \<Rightarrow> nat \<Rightarrow> int \<Rightarrow> nat \<Rightarrow> nat
     \<Rightarrow> event list \<Rightarrow> exn + unit \<Rightarrow> bool"
where
  "loop_ends toNumber fav b ms attempts k n t r \<longleftrightarrow>
     (\<exists>e. fav k = Inl e \<and> t = polls n ms \<and> r = Inl e) \<or>
     (\<exists>f e. fav k = Inr f \<and> f \<noteq> b \<and> toNumber f = Inl e \<and>
        t = polls n ms @ [success_line] \<and> r = Inl e) \<or>
     (\<exists>f m. fav k = Inr f \<and> f \<noteq> b \<and> toNumber f = Inr m \<and>
        t = polls n ms @ [success_line, Log [Str ''Value after update: '', DateOf m]] \<and> r = Inr ()) \<or>
     (fav k = Inr b \<and> attempts < int (Suc k) \<and> t = polls n ms @ [timeout_line] \<and> r = Inr ())"

text \<open>The kinds of event that the ordering of a run is about.\<close>

fun is_submission :: "event \<Rightarrow> bool" where
  "is_submission SendTransaction = True"
| "is_submission ev = False"

fun is_watcher_poll :: "event \<Rightarrow> bool" where
  "is_watcher_poll (Sleep ms) = True"
| "is_watcher_poll ev = False"

fun is_status_poll :: "event \<Rightarrow> bool" where
  "is_status_poll (SetInterval ms) = True"
| "is_status_poll (Tick ms) = True"
| "is_status_poll (GetStatus h) = True"
| "is_status_poll ClearInterval = True"
| "is_status_poll ev = False"

fun is_status_query :: "event \<Rightarrow> bool" where
  "is_status_query (GetStatus h) = True"
| "is_status_query ev = False"

text \<open>
  \<open>preceded_by P Q t\<close>: no \<open>Q\<close> event comes before the first \<open>P\<close> event of \<open>t\<close>.
  \<open>none_after P Q t\<close>: no \<open>P\<close> event comes after the first \<open>Q\<close> event of \<open>t\<close>.
\<close>

fun preceded_by :: "(event \<Rightarrow> bool) \<Rightarrow> (event \<Rightarrow> bool) \<Rightarrow> event list \<Rightarrow> bool" where
  "preceded_by P Q [] = True"
| "preceded_by P Q (ev # t) = (if P ev then True else if Q ev then False else preceded_by P Q t)"

fun none_after :: "(event \<Rightarrow> bool) \<Rightarrow> (event \<Rightarrow> bool) \<Rightarrow> event list \<Rightarrow> bool" where
  "none_after P Q [] = True"
| "none_after P Q (ev # t) = (if Q ev then list_all (\<lambda>x. \<not> P x) t else none_after P Q t)"

text \<open>
  The clock of a run, in milliseconds from its start: a sleep and a period of the interval
  take their length, everything else is taken to be instantaneous. \<open>times_of P now t\<close>
  lists the times at which the \<open>P\<close> events of \<open>t\<close> are over.
\<close>

fun duration :: "event \<Rightarrow> nat" where
  "duration (Sleep ms) = ms"
| "duration (Tick ms) = ms"
| "duration ev = 0"

fun times_of :: "(event \<Rightarrow> bool) \<Rightarrow> nat \<Rightarrow> event list \<Rightarrow> nat list" where
  "times_of P now [] = []"
| "times_of P now (ev # t) =
     (if P ev then [now + duration ev] else []) @ times_of P (now + duration ev) t"


definition queries :: "event list \<Rightarrow> nat" where
  "queries t = length (filter is_status_query t)"

text \<open>An answer of the status API whose first record has the status \<^verbatim>\<open>"executed"\<close>.\<close>

definition terminal_answer :: "exn + TransferStatusResponse list \<Rightarrow> bool" where
  "terminal_answer settled \<longleftrightarrow>
     (case settled of Inr (d # _) \<Rightarrow> status d = ''executed'' | _ \<Rightarrow> False)"

section \<open>Example runs\<close>

text \<open>
  Concrete inputs at which the theorems below are evaluated. \<open>example_toNumber\<close> is a
  conversion that throws from \<open>2 ^ 53\<close> on, as ethers documents for
  \<^verbatim>\<open>BigNumber.toNumber()\<close>. \<open>example_reads\<close> is the run of the guide: the counter is 104
  and becomes 105 at the third poll. \<open>example_huge\<close> is a counter that goes from 104 to
  \<open>2 ^ 53\<close> at the second poll. \<open>example_world\<close> is that run with a status API that
  has not indexed the transfer for four ticks, then reports it pending, then executed.
\<close>

definition example_toNumber :: "uint256 \<Rightarrow> exn + int" where
  "example_toNumber v = (if unat v < 2 ^ 53 then Inr (uint v) else Inl (Error ''overflow''))"

definition example_reads :: "nat \<Rightarrow> exn + uint256" where
  "example_reads k = (if k < 2 then Inr 104 else Inr 105)"

definition example_unchanged :: "nat \<Rightarrow> exn + uint256" where
  "example_unchanged k = Inr 104"


definition example_huge :: "nat \<Rightarrow> exn + uint256" where
  "example_huge k = (if k = 0 then Inr 104 else Inr 9007199254740992)"

definition example_answers :: "(exn + TransferStatusResponse list) list" where
  "example_answers =
     [Inr [], Inr [\<lparr>status = ''failed''\<rparr>], Inl (Error ''fetch failed''),
      Inr [\<lparr>status = ''pending''\<rparr>]]"

definition example_world :: world where
  "example_world =
     \<lparr> process_env = (\<lambda>k. if k = ''PRIVATE_KEY'' then Some ''0x01'' else None),
       new_Wallet = (\<lambda>key. Inr ''0xSender''),
       BigNumber_toNumber = example_toNumber,
       counter_number_before = Inr 104,
       counter_number_polled = example_reads,
       counter_number_final = Inr 105,
       messageTransfer_init = Inr (),
       messageTransfer_create = Inr (),
       messageTransfer_getFee = Inr ''fee'',
       messageTransfer_build = Inr (),
       wallet_sendTransaction = Inr ''0x251b'',
       status_answers =
         [Inr [], Inr [], Inr [], Inr [],
          Inr [\<lparr>status = ''pending''\<rparr>], Inr [\<lparr>status = ''executed''\<rparr>]] \<rparr>"

section \<open>The watcher: how the loop runs and ends\<close>

lemma reads_performed_simps [simp]:
  "reads_performed [] = 0"
  "reads_performed (ReadNumber # t) = Suc (reads_performed t)"
  "reads_performed (Sleep ms # t) = reads_performed t"
  "reads_performed (Log as # t) = reads_performed t"
  "reads_performed (t @ t') = reads_performed t + reads_performed t'"
  by (simp_all add: reads_performed_def)

lemma reads_performed_lines [simp]:
  "reads_performed (success_line # t) = reads_performed t"
  "reads_performed (timeout_line # t) = reads_performed t"
  by (simp_all add: success_line_def timeout_line_def)

lemma fst_prepend [simp]: "fst (prepend t p) = t @ fst p"
  by (cases p) simp

lemma snd_prepend [simp]: "snd (prepend t p) = snd p"
  by (cases p) simp

lemma prepend_prepend [simp]: "prepend t (prepend t' p) = prepend (t @ t') p"
  by (cases p) simp

lemma prepend_Nil [simp]: "prepend [] p = p"
  by (cases p) simp

lemma reads_performed_polls [simp]: "reads_performed (polls k ms) = k"
  by (induction k) simp_all

lemma polls_snoc: "polls k ms @ [Sleep ms, ReadNumber] = polls (Suc k) ms"
  by (induction k) simp_all

lemma reports_success_simps [simp]:
  "\<not> reports_success []"
  "reports_success (Sleep ms # t) = reports_success t"
  "reports_success (ReadNumber # t) = reports_success t"
  "reports_success (success_line # t)"
  "reports_success (timeout_line # t) = reports_success t"
  "reports_success (Log [Str ''Value after update: '', DateOf n] # t) = reports_success t"
  "reports_success (t @ t') \<longleftrightarrow> reports_success t \<or> reports_success t'"
  by (auto simp: reports_success_def success_line_def timeout_line_def)

lemma reports_timeout_simps [simp]:
  "\<not> reports_timeout []"
  "reports_timeout (Sleep ms # t) = reports_timeout t"
  "reports_timeout (ReadNumber # t) = reports_timeout t"
  "reports_timeout (timeout_line # t)"
  "reports_timeout (success_line # t) = reports_timeout t"
  "reports_timeout (Log [Str ''Value after update: '', DateOf n] # t) = reports_timeout t"
  "reports_timeout (t @ t') \<longleftrightarrow> reports_timeout t \<or> reports_timeout t'"
  by (auto simp: reports_timeout_def success_line_def timeout_line_def)

lemma reports_polls [simp]:
  "\<not> reports_success (polls k ms)" "\<not> reports_timeout (polls k ms)"
  by (induction k) simp_all

text \<open>One iteration of the loop, by the branch it takes.\<close>

lemma waitLoop_rejected:
  "fav i = Inl e \<Longrightarrow>
   waitLoop toNumber fav b ms attempts i = ([Sleep ms, ReadNumber], Inl e)"
  by (subst waitLoop.simps) simp

lemma waitLoop_changed:
  "fav i = Inr f \<Longrightarrow> f \<noteq> b \<Longrightarrow>
   waitLoop toNumber fav b ms attempts i =
     (case toNumber f of
        Inl e \<Rightarrow> ([Sleep ms, ReadNumber, success_line], Inl e)
      | Inr n \<Rightarrow>
          ([Sleep ms, ReadNumber, success_line, Log [Str ''Value after update: '', DateOf n]],
           Inr ()))"
  by (subst waitLoop.simps) (simp add: BigNumber_eq_def success_line_def split: sum.splits)

lemma waitLoop_exhausted:
  "fav i = Inr b \<Longrightarrow> attempts < int (Suc i) \<Longrightarrow>
   waitLoop toNumber fav b ms attempts i = ([Sleep ms, ReadNumber, timeout_line], Inr ())"
  by (subst waitLoop.simps) (simp add: BigNumber_eq_def timeout_line_def)

lemma waitLoop_again:
  "fav i = Inr b \<Longrightarrow> \<not> attempts < int (Suc i) \<Longrightarrow>
   waitLoop toNumber fav b ms attempts i =
     prepend [Sleep ms, ReadNumber] (waitLoop toNumber fav b ms attempts (Suc i))"
  by (subst waitLoop.simps) (simp add: BigNumber_eq_def)

lemma waitLoop_cases:
  obtains (rejected) e where "fav i = Inl e"
  | (changed) f where "fav i = Inr f" "f \<noteq> b"
  | (exhausted) "fav i = Inr b" "attempts < int (Suc i)"
  | (again) "fav i = Inr b" "\<not> attempts < int (Suc i)"
  by (cases "fav i") auto

text \<open>The number of reads, whatever the chain answers and whatever sign \<open>attempts\<close> has.\<close>

lemma waitLoop_reads_bound:
  "reads_performed (fst (waitLoop toNumber fav b ms attempts i))
     \<le> max 1 (nat (attempts + 1 - int i))"
proof (induction toNumber fav b ms attempts i rule: waitLoop.induct)
  case (1 toNumber fav b ms attempts i)
  show ?case
  proof (cases rule: waitLoop_cases [where fav=fav and i=i and b=b and attempts=attempts])
    case (rejected e)
    then show ?thesis by (simp add: waitLoop_rejected)
  next
    case (changed f)
    then show ?thesis by (simp add: waitLoop_changed success_line_def split: sum.splits)
  next
    case exhausted
    then show ?thesis by (simp add: waitLoop_exhausted timeout_line_def)
  next
    case again
    with "1.IH" [of b]
    have "reads_performed (fst (waitLoop toNumber fav b ms attempts (Suc i)))
            \<le> max 1 (nat (attempts + 1 - int (Suc i)))"
      by (simp add: BigNumber_eq_def)
    with again show ?thesis by (simp add: waitLoop_again)
  qed
qed

text \<open>While the value is unchanged and attempts are left, the loop polls on.\<close>

lemma waitLoop_skip:
  assumes "\<forall>j. i \<le> j \<and> j < i + k \<longrightarrow> fav j = Inr b" and "int (i + k) \<le> attempts"
  shows "waitLoop toNumber fav b ms attempts i
           = prepend (polls k ms) (waitLoop toNumber fav b ms attempts (i + k))"
  using assms
proof (induction k arbitrary: i)
  case 0
  show ?case by simp
next
  case (Suc k)
  have here: "fav i = Inr b" using Suc.prems(1) by simp
  have more: "\<not> attempts < int (Suc i)" using Suc.prems(2) by simp
  have "waitLoop toNumber fav b ms attempts (Suc i)
          = prepend (polls k ms) (waitLoop toNumber fav b ms attempts (Suc i + k))"
    using Suc.prems by (intro Suc.IH) auto
  then show ?case
    by (simp add: waitLoop_again [where toNumber=toNumber and ms=ms and fav=fav and i=i, OF here more])
qed

lemma loop_ends_step:
  "loop_ends toNumber fav b ms attempts k n t r \<Longrightarrow>
   loop_ends toNumber fav b ms attempts k (Suc n) (Sleep ms # ReadNumber # t) r"
  unfolding loop_ends_def by (elim disjE exE conjE) simp_all

lemma loop_ends_reads:
  "loop_ends toNumber fav b ms attempts k n t r \<Longrightarrow> reads_performed t = n"
  unfolding loop_ends_def by (elim disjE exE conjE) simp_all

text \<open>
  Every run of the loop from \<open>i\<close> is some number \<open>k\<close> of polls that found the value
  unchanged, and one more poll that ended it in one of the four ways.
\<close>

lemma waitLoop_end:
  assumes "waitLoop toNumber fav b ms attempts i = (t, r)"
  shows "\<exists>k. (\<forall>j<k. fav (i + j) = Inr b)
            \<and> loop_ends toNumber fav b ms attempts (i + k) (Suc k) t r"
  using assms
proof (induction toNumber fav b ms attempts i arbitrary: t r rule: waitLoop.induct)
  case (1 toNumber fav b ms attempts i)
  show ?case
  proof (cases rule: waitLoop_cases [where fav=fav and i=i and b=b and attempts=attempts])
    case (rejected e)
    with "1.prems" show ?thesis
      by (intro exI [of _ 0]) (simp add: waitLoop_rejected loop_ends_def)
  next
    case (changed f)
    with "1.prems" show ?thesis
      by (intro exI [of _ 0]) (cases "toNumber f"; simp add: waitLoop_changed loop_ends_def)
  next
    case exhausted
    with "1.prems" show ?thesis
      by (intro exI [of _ 0]) (simp add: waitLoop_exhausted loop_ends_def)
  next
    case again
    obtain t' r' where rest: "waitLoop toNumber fav b ms attempts (Suc i) = (t', r')"
      by (cases "waitLoop toNumber fav b ms attempts (Suc i)")
    with again "1.prems" have t: "t = Sleep ms # ReadNumber # t'" and r: "r = r'"
      by (simp_all add: waitLoop_again)
    from again have "waitLoop toNumber fav b ms attempts (Suc i) = (t', r') \<Longrightarrow>
        \<exists>k. (\<forall>j<k. fav (Suc i + j) = Inr b) \<and>
            loop_ends toNumber fav b ms attempts (Suc i + k) (Suc k) t' r'"
      by (intro "1.IH" [of b t' r']) (simp_all add: BigNumber_eq_def)
    with rest obtain k where
      before: "\<forall>j<k. fav (Suc i + j) = Inr b" and
      ends: "loop_ends toNumber fav b ms attempts (Suc i + k) (Suc k) t' r'"
      by blast
    have "\<forall>j<Suc k. fav (i + j) = Inr b"
    proof (intro allI impI)
      fix j assume "j < Suc k"
      then show "fav (i + j) = Inr b"
        using before again(1) by (cases j) auto
    qed
    moreover from loop_ends_step [OF ends]
    have "loop_ends toNumber fav b ms attempts (i + Suc k) (Suc (Suc k)) t r"
      by (simp add: t r)
    ultimately show ?thesis by blast
  qed
qed

lemma waitUntilBridged_end:
  assumes "waitUntilBridged toNumber fav b ms attempts = (t, r)"
  obtains k where "\<forall>j<k. fav j = Inr b" "loop_ends toNumber fav b ms attempts k (Suc k) t r"
proof -
  from assms have "waitLoop toNumber fav b ms attempts 0 = (t, r)"
    by (simp add: waitUntilBridged_def)
  from waitLoop_end [OF this] show thesis
    using that by auto
qed

lemma waitUntilBridged_reads_bound:
  "reads_performed (fst (waitUntilBridged toNumber fav b ms attempts)) \<le> max 1 (nat (attempts + 1))"
  using waitLoop_reads_bound [of toNumber fav b ms attempts 0]
  by (simp add: waitUntilBridged_def)

lemma waitUntilBridged_changed_at:
  assumes "\<forall>j<k. fav j = Inr b" and "fav k = Inr f" and "f \<noteq> b" and "int k \<le> attempts"
  shows "fst (waitUntilBridged toNumber fav b ms attempts) =
           polls (Suc k) ms @ success_line #
             (case toNumber f of
                Inl e \<Rightarrow> []
              | Inr n \<Rightarrow> [Log [Str ''Value after update: '', DateOf n]])"
proof -
  have "waitLoop toNumber fav b ms attempts 0
          = prepend (polls k ms) (waitLoop toNumber fav b ms attempts (0 + k))"
    using assms(1,4) by (intro waitLoop_skip) simp_all
  then show ?thesis
    using assms(2,3)
    by (cases "toNumber f")
       (simp_all add: waitUntilBridged_def waitLoop_changed polls_snoc [symmetric]
          del: polls.simps)
qed

lemma waitUntilBridged_unchanged:
  assumes "0 \<le> attempts" and "\<forall>j\<le>nat attempts. fav j = Inr b"
  shows "waitUntilBridged toNumber fav b ms attempts =
           (polls (Suc (nat attempts)) ms @ [timeout_line], Inr ())"
proof -
  have "waitLoop toNumber fav b ms attempts 0
          = prepend (polls (nat attempts) ms)
              (waitLoop toNumber fav b ms attempts (0 + nat attempts))"
    using assms by (intro waitLoop_skip) simp_all
  moreover have "waitLoop toNumber fav b ms attempts (nat attempts)
          = ([Sleep ms, ReadNumber, timeout_line], Inr ())"
    using assms by (intro waitLoop_exhausted) simp_all
  ultimately show ?thesis
    by (simp add: waitUntilBridged_def polls_snoc [symmetric] del: polls.simps)
qed

subsection \<open>The example runs of the watcher\<close>

lemma example_run:
  "waitUntilBridged example_toNumber example_reads 104 15000 8 =
     ([Sleep 15000, ReadNumber, Sleep 15000, ReadNumber, Sleep 15000, ReadNumber, success_line,
       Log [Str ''Value after update: '', DateOf 105]], Inr ())"
  by (simp add: waitUntilBridged_def waitLoop.simps example_reads_def example_toNumber_def
        BigNumber_eq_def success_line_def)


lemma example_huge_run:
  "waitUntilBridged example_toNumber example_huge 104 15000 8 =
     ([Sleep 15000, ReadNumber, Sleep 15000, ReadNumber, success_line],
      Inl (Error ''overflow''))"
  by (simp add: waitUntilBridged_def waitLoop.simps example_toNumber_def example_huge_def
        BigNumber_eq_def success_line_def)

section \<open>Claims about the completion watcher\<close>

text \<open>
  Claim C1. Whatever the baseline \<open>b\<close>, the reads and the other arguments: the watcher
  prints its success line exactly when the value \<open>f\<close> that its last read returned is not
  equal to \<open>b\<close> under \<^verbatim>\<open>BigNumber.eq\<close>. So a reported success means \<open>f \<noteq> b\<close>, and
  nothing but a changed value makes the watcher report success. (The watcher always reads
  at least once, so there is a last read.)
\<close>

theorem watcher_success_iff_last_read_changed:
  assumes "waitUntilBridged toNumber fav b ms attempts = (t, r)"
  shows "0 < reads_performed t \<and>
         (reports_success t \<longleftrightarrow>
            (\<exists>f. fav (reads_performed t - 1) = Inr f \<and> \<not> BigNumber_eq f b))"
proof -
  from assms obtain k where ends: "loop_ends toNumber fav b ms attempts k (Suc k) t r"
    by (rule waitUntilBridged_end)
  have k: "reads_performed t = Suc k"
    by (rule loop_ends_reads [OF ends])
  from ends show ?thesis
    unfolding loop_ends_def k
    by (elim disjE exE conjE) (simp_all add: BigNumber_eq_def)
qed

theorem watcher_success_iff_last_read_changed_witness:
  "waitUntilBridged example_toNumber example_reads 104 15000 8 =
     ([Sleep 15000, ReadNumber, Sleep 15000, ReadNumber, Sleep 15000, ReadNumber, success_line,
       Log [Str ''Value after update: '', DateOf 105]], Inr ())
   \<and> reports_success
       [Sleep 15000, ReadNumber, Sleep 15000, ReadNumber, Sleep 15000, ReadNumber, success_line,
        Log [Str ''Value after update: '', DateOf 105]]
   \<and> example_reads 2 = Inr 105 \<and> \<not> BigNumber_eq 105 104"
  using watcher_success_iff_last_read_changed [OF example_run] example_run
  by (simp add: example_reads_def BigNumber_eq_def)

text \<open>
  Claim C2. The watcher is a total function (\<open>waitLoop\<close> is defined with its termination
  proof, the measure being the attempts that are left), so every run ends, with a finite
  trace. For every baseline, every sequence of read results and every conversion:
  \<^item> the run makes at most \<open>max 1 (attempts + 1)\<close> reads, which is \<open>attempts + 1\<close> for
    an attempt count \<open>attempts \<ge> 0\<close>;
  \<^item> with the default arguments (15000 ms, 8 attempts), if the first two reads give the
    baseline and the third a different value, the run makes exactly 3 reads and reports
    success;
  \<^item> with the default arguments, if the reads keep giving the baseline, the run is nine
    polls and the line that bridging takes too long, and it returns normally: 9 reads, no
    exception.
\<close>

theorem watcher_read_bound_and_scenarios:
  "reads_performed (fst (waitUntilBridged toNumber fav b ms attempts)) \<le> max 1 (nat (attempts + 1))
   \<and> (0 \<le> attempts \<longrightarrow>
        reads_performed (fst (waitUntilBridged toNumber fav b ms attempts)) \<le> nat attempts + 1)
   \<and> (fav 0 = Inr b \<and> fav 1 = Inr b \<and> fav 2 = Inr f \<and> f \<noteq> b \<longrightarrow>
        reads_performed
          (fst (waitUntilBridged toNumber fav b default_intervalDuration default_attempts)) = 3
        \<and> reports_success
          (fst (waitUntilBridged toNumber fav b default_intervalDuration default_attempts)))
   \<and> ((\<forall>k\<le>8. fav k = Inr b) \<longrightarrow>
        waitUntilBridged toNumber fav b default_intervalDuration default_attempts =
          (polls 9 15000 @ [timeout_line], Inr ()))"
proof (intro conjI impI)
  show bound: "reads_performed (fst (waitUntilBridged toNumber fav b ms attempts))
      \<le> max 1 (nat (attempts + 1))"
    by (rule waitUntilBridged_reads_bound)
  assume "0 \<le> attempts"
  with bound
  show "reads_performed (fst (waitUntilBridged toNumber fav b ms attempts)) \<le> nat attempts + 1"
    by simp
next
  assume a: "fav 0 = Inr b \<and> fav 1 = Inr b \<and> fav 2 = Inr f \<and> f \<noteq> b"
  have before: "\<forall>j<2. fav j = Inr b"
  proof (intro allI impI)
    fix j :: nat assume "j < 2"
    then have "j = 0 \<or> j = 1" by arith
    with a show "fav j = Inr b" by auto
  qed
  have t: "fst (waitUntilBridged toNumber fav b default_intervalDuration default_attempts) =
           polls (Suc 2) default_intervalDuration @ success_line #
             (case toNumber f of
                Inl e \<Rightarrow> []
              | Inr n \<Rightarrow> [Log [Str ''Value after update: '', DateOf n]])"
    using before a by (intro waitUntilBridged_changed_at) (simp_all add: default_attempts_def)
  show "reads_performed
          (fst (waitUntilBridged toNumber fav b default_intervalDuration default_attempts)) = 3"
    unfolding t by (cases "toNumber f") simp_all
  show "reports_success
          (fst (waitUntilBridged toNumber fav b default_intervalDuration default_attempts))"
    unfolding t by simp
next
  assume "\<forall>k\<le>8. fav k = Inr b"
  then have "waitUntilBridged toNumber fav b default_intervalDuration default_attempts =
           (polls (Suc (nat default_attempts)) default_intervalDuration @ [timeout_line], Inr ())"
    by (intro waitUntilBridged_unchanged) (simp_all add: default_attempts_def)
  then show "waitUntilBridged toNumber fav b default_intervalDuration default_attempts =
          (polls 9 15000 @ [timeout_line], Inr ())"
    by (simp add: default_attempts_def default_intervalDuration_def eval_nat_numeral)
qed

theorem watcher_read_bound_and_scenarios_witness:
  "(0::int) \<le> 8
   \<and> reads_performed (fst (waitUntilBridged example_toNumber example_reads 104 15000 8)) \<le> nat 8 + 1
   \<and> example_reads 0 = Inr 104 \<and> example_reads 1 = Inr 104 \<and> example_reads 2 = Inr 105
   \<and> (105 :: uint256) \<noteq> 104
   \<and> reads_performed
        (fst (waitUntilBridged example_toNumber example_reads 104
                default_intervalDuration default_attempts)) = 3
   \<and> reports_success
        (fst (waitUntilBridged example_toNumber example_reads 104
                default_intervalDuration default_attempts))
   \<and> example_unchanged 0 = Inr 104 \<and> example_unchanged 8 = Inr 104
   \<and> waitUntilBridged example_toNumber example_unchanged 104
        default_intervalDuration default_attempts =
        (polls 9 15000 @ [timeout_line], Inr ())"
  using watcher_read_bound_and_scenarios [of example_toNumber example_reads 104 15000 8 105]
    watcher_read_bound_and_scenarios [of example_toNumber example_unchanged 104 15000 8 105]
  by (simp add: example_reads_def example_unchanged_def)



text \<open>
  Claim C9. Whenever the destination value changes, the watcher converts the changed
  value with \<open>toNumber\<close> after the success line and before the value is printed. Let
  read number \<open>k\<close> be the first that returns a value \<open>f\<close> other than the baseline, and
  let the loop get that far (\<open>k = 0\<close>, or \<open>k\<close> attempts are allowed). Then the run is
  fixed by the conversion: if it returns \<open>n\<close>, the run is the \<open>k + 1\<close> polls, the
  success line and the value line for \<open>n\<close>, and the watcher returns normally; if it
  throws \<open>e\<close>, the run is the \<open>k + 1\<close> polls and the success line, the value is never
  printed, and the watcher ends with the exception \<open>e\<close>. The conversion belongs to
  ethers, not to the repository, so what it does from \<open>2 ^ 53\<close> on is the first
  assumption: for a conversion that throws on every value of at least \<open>2 ^ 53\<close>, every
  changed value \<open>f \<ge> 2 ^ 53\<close> makes the watcher raise on its success branch instead of
  returning, although \<open>f\<close> is a proper 256-bit unsigned value.
\<close>

theorem watcher_success_path_converts_toNumber:
  assumes lib: "\<forall>v. 2 ^ 53 \<le> unat v \<longrightarrow> isl (toNumber v)"
      and before: "\<forall>j<k. fav j = Inr b"
      and changed: "fav k = Inr f" "f \<noteq> b"
      and reached: "k = 0 \<or> int k \<le> attempts"
  shows "waitUntilBridged toNumber fav b ms attempts =
           (case toNumber f of
              Inr n \<Rightarrow>
                (polls (Suc k) ms @ [success_line, Log [Str ''Value after update: '', DateOf n]],
                 Inr ())
            | Inl e \<Rightarrow> (polls (Suc k) ms @ [success_line], Inl e))
         \<and> (2 ^ 53 \<le> unat f \<longrightarrow>
              (\<exists>e. toNumber f = Inl e \<and>
                 waitUntilBridged toNumber fav b ms attempts =
                   (polls (Suc k) ms @ [success_line], Inl e)))"
proof -
  have skip: "waitLoop toNumber fav b ms attempts 0
          = prepend (polls k ms) (waitLoop toNumber fav b ms attempts k)"
  proof (cases "k = 0")
    case True
    then show ?thesis by simp
  next
    case False
    with reached have "int (0 + k) \<le> attempts" by simp
    with before have "waitLoop toNumber fav b ms attempts 0
          = prepend (polls k ms) (waitLoop toNumber fav b ms attempts (0 + k))"
      by (intro waitLoop_skip) simp_all
    then show ?thesis by simp
  qed
  have run: "waitUntilBridged toNumber fav b ms attempts =
           (case toNumber f of
              Inr n \<Rightarrow>
                (polls (Suc k) ms @ [success_line, Log [Str ''Value after update: '', DateOf n]],
                 Inr ())
            | Inl e \<Rightarrow> (polls (Suc k) ms @ [success_line], Inl e))"
    using changed
    by (cases "toNumber f")
       (simp_all add: waitUntilBridged_def skip waitLoop_changed polls_snoc [symmetric]
          del: polls.simps)
  have raises: "\<exists>e. toNumber f = Inl e \<and>
      waitUntilBridged toNumber fav b ms attempts = (polls (Suc k) ms @ [success_line], Inl e)"
    if "2 ^ 53 \<le> unat f"
  proof -
    from that lib have "isl (toNumber f)" by simp
    then obtain e where "toNumber f = Inl e" by (cases "toNumber f") simp_all
    with run show ?thesis by simp
  qed
  from run raises show ?thesis by blast
qed

theorem watcher_success_path_converts_toNumber_witness:
  "example_huge 0 = Inr 104 \<and> example_huge 1 = Inr 9007199254740992
   \<and> (9007199254740992 :: uint256) \<noteq> 104
   \<and> (2::nat) ^ 53 \<le> unat (9007199254740992 :: uint256)
   \<and> example_toNumber 9007199254740992 = Inl (Error ''overflow'')
   \<and> waitUntilBridged example_toNumber example_huge 104 15000 8 =
       ([Sleep 15000, ReadNumber, Sleep 15000, ReadNumber, success_line],
        Inl (Error ''overflow''))"
proof -
  have lib: "\<forall>v. 2 ^ 53 \<le> unat v \<longrightarrow> isl (example_toNumber v)"
    by (simp add: example_toNumber_def)
  have before: "\<forall>j<1. example_huge j = Inr 104"
    by (simp add: example_huge_def)
  have changed: "example_huge 1 = Inr 9007199254740992" "(9007199254740992 :: uint256) \<noteq> 104"
    by (simp_all add: example_huge_def)
  have reached: "(1::nat) = 0 \<or> int 1 \<le> 8" by simp
  have big: "(2::nat) ^ 53 \<le> unat (9007199254740992 :: uint256)" by simp
  have thrown: "example_toNumber 9007199254740992 = Inl (Error ''overflow'')"
    by (simp add: example_toNumber_def)
  from watcher_success_path_converts_toNumber
         [OF lib before changed reached, of 15000] big before changed thrown
  show ?thesis by simp
qed

section \<open>The status poller: how the ticks run\<close>

lemma status_callback_simps:
  "status_callback (Inl e) = ([Log [Str ''error:'', Err e]], Running)"
  "status_callback (Inr []) = ([Log [Str ''Waiting for the TX to be indexed'']], Running)"
  "status_callback (Inr (d # ds)) =
     (if status d = ''executed''
      then ([Log [Str ''Status of the transfer'', Str (status d)], ClearInterval], Exit 0)
      else ([Log [Str ''Status of the transfer'', Str (status d)]], Running))"
  by (simp_all add: status_callback_def)

lemma status_callback_Running_iff: "snd (status_callback a) = Running \<longleftrightarrow> \<not> terminal_answer a"
  by (cases a rule: sum.exhaust;
      simp add: status_callback_simps terminal_answer_def split: list.splits)

lemma poll_step_running:
  "\<not> terminal_answer a \<Longrightarrow>
   poll h (a # later) =
     prepend ([Tick status_period, GetStatus h] @ fst (status_callback a)) (poll h later)"
  by (cases "status_callback a") (use status_callback_Running_iff [of a] in simp)

lemma poll_step_terminal:
  "terminal_answer a \<Longrightarrow>
   poll h (a # later) = ([Tick status_period, GetStatus h] @ fst (status_callback a), Exit 0)"
  by (cases a rule: sum.exhaust)
     (auto simp: terminal_answer_def status_callback_simps split: list.splits)

lemma poll_append:
  "\<forall>a\<in>set earlier. \<not> terminal_answer a \<Longrightarrow>
   poll h (earlier @ later) = prepend (fst (poll h earlier)) (poll h later)"
proof (induction earlier)
  case Nil
  show ?case by simp
next
  case (Cons a earlier)
  then show ?case by (simp add: poll_step_running del: poll.simps)
qed

lemma poll_never_terminal:
  "\<forall>a\<in>set answers. \<not> terminal_answer a \<Longrightarrow>
   snd (poll h answers) = Running \<and> ClearInterval \<notin> set (fst (poll h answers))
   \<and> queries (fst (poll h answers)) = length answers"
proof (induction answers)
  case Nil
  show ?case by (simp add: queries_def)
next
  case (Cons a answers)
  have "ClearInterval \<notin> set (fst (status_callback a))" "queries (fst (status_callback a)) = 0"
    using Cons.prems
    by (cases a rule: sum.exhaust;
        auto simp: terminal_answer_def status_callback_simps queries_def split: list.splits)+
  with Cons show ?case
    by (simp add: poll_step_running queries_def del: poll.simps)
qed

section \<open>Claims about the status poller\<close>


text \<open>
  Claim C7. When the first record of an answer has the status \<^verbatim>\<open>executed\<close>, the callback
  prints it, calls \<^verbatim>\<open>clearInterval\<close> and the process exits with code 0. In a run of the
  poller: after any number of \<open>earlier\<close> answers that were not terminal, such an answer
  ends the polling, with \<^verbatim>\<open>clearInterval\<close> as the last event and exit code 0; the
  answers that would come \<open>later\<close> are never asked for.
\<close>

theorem executed_stops_polling_and_exits:
  assumes "status d = ''executed''" and "\<forall>a\<in>set earlier. \<not> terminal_answer a"
  shows "status_callback (Inr (d # ds)) =
           ([Log [Str ''Status of the transfer'', Str ''executed''], ClearInterval], Exit 0)
         \<and> poll h (earlier @ Inr (d # ds) # later) =
             (fst (poll h earlier) @
              [Tick status_period, GetStatus h,
               Log [Str ''Status of the transfer'', Str ''executed''], ClearInterval], Exit 0)"
proof -
  have "terminal_answer (Inr (d # ds))"
    using assms(1) by (simp add: terminal_answer_def)
  then have "poll h (Inr (d # ds) # later) =
      ([Tick status_period, GetStatus h,
        Log [Str ''Status of the transfer'', Str ''executed''], ClearInterval], Exit 0)"
    using assms(1) by (simp add: poll_step_terminal status_callback_simps del: poll.simps)
  with assms show ?thesis
    by (simp add: poll_append status_callback_simps del: poll.simps)
qed

theorem executed_stops_polling_and_exits_witness:
  "status \<lparr>status = ''executed''\<rparr> = ''executed''
   \<and> \<not> terminal_answer (Inr []) \<and> \<not> terminal_answer (Inr [\<lparr>status = ''pending''\<rparr>])
   \<and> poll ''0x251b''
        ([Inr [], Inr [\<lparr>status = ''pending''\<rparr>]] @ Inr [\<lparr>status = ''executed''\<rparr>] # [Inr []]) =
       ([Tick 5000, GetStatus ''0x251b'', Log [Str ''Waiting for the TX to be indexed''],
         Tick 5000, GetStatus ''0x251b'', Log [Str ''Status of the transfer'', Str ''pending''],
         Tick 5000, GetStatus ''0x251b'', Log [Str ''Status of the transfer'', Str ''executed''],
         ClearInterval], Exit 0)"
proof -
  have d: "status \<lparr>status = ''executed''\<rparr> = ''executed''" by simp
  have e: "\<forall>a\<in>set [Inr [], Inr [\<lparr>status = ''pending''\<rparr>]]. \<not> terminal_answer a"
    by (simp add: terminal_answer_def)
  from executed_stops_polling_and_exits [OF d e, of "[]" "''0x251b''" "[Inr []]"] d e
  show ?thesis by (simp add: status_callback_simps status_period_def)
qed


text \<open>
  Claim C10. The callback clears the interval and exits in one case only: the answer is
  an array whose first record has exactly the status \<^verbatim>\<open>executed\<close> (that is what
  \<open>terminal_answer\<close> says). For every other answer (an empty array, a first record with
  any other status, a failed query) it does neither. So while no answer is terminal the
  poller goes on: after any list of such answers it has made one query per answer, the
  interval is still armed and the process has not exited.
\<close>

theorem only_executed_cancels_the_interval:
  "(terminal_answer a \<longleftrightarrow> (\<exists>d ds. a = Inr (d # ds) \<and> status d = ''executed''))
   \<and> (snd (status_callback a) = Exit 0 \<longleftrightarrow> terminal_answer a)
   \<and> (snd (status_callback a) = Running \<longleftrightarrow> \<not> terminal_answer a)
   \<and> (ClearInterval \<in> set (fst (status_callback a)) \<longleftrightarrow> terminal_answer a)
   \<and> ((\<forall>x\<in>set answers. \<not> terminal_answer x) \<longrightarrow>
        snd (poll h answers) = Running \<and> ClearInterval \<notin> set (fst (poll h answers))
        \<and> queries (fst (poll h answers)) = length answers)"
proof (intro conjI)
  show "terminal_answer a \<longleftrightarrow> (\<exists>d ds. a = Inr (d # ds) \<and> status d = ''executed'')"
    by (cases a rule: sum.exhaust; simp add: terminal_answer_def split: list.splits)
  show "snd (status_callback a) = Exit 0 \<longleftrightarrow> terminal_answer a"
    by (cases a rule: sum.exhaust;
        simp add: terminal_answer_def status_callback_simps split: list.splits)
  show "snd (status_callback a) = Running \<longleftrightarrow> \<not> terminal_answer a"
    by (rule status_callback_Running_iff)
  show "ClearInterval \<in> set (fst (status_callback a)) \<longleftrightarrow> terminal_answer a"
    by (cases a rule: sum.exhaust;
        simp add: terminal_answer_def status_callback_simps split: list.splits)
  show "(\<forall>x\<in>set answers. \<not> terminal_answer x) \<longrightarrow>
        snd (poll h answers) = Running \<and> ClearInterval \<notin> set (fst (poll h answers))
        \<and> queries (fst (poll h answers)) = length answers"
    using poll_never_terminal by blast
qed

theorem only_executed_cancels_the_interval_witness:
  "length example_answers = 4
   \<and> snd (poll ''0x251b'' example_answers) = Running
   \<and> queries (fst (poll ''0x251b'' example_answers)) = 4
   \<and> terminal_answer (Inr [\<lparr>status = ''executed''\<rparr>])
   \<and> snd (status_callback (Inr [\<lparr>status = ''executed''\<rparr>])) = Exit 0"
proof -
  have h: "\<forall>x\<in>set example_answers. \<not> terminal_answer x"
    by (simp add: example_answers_def terminal_answer_def)
  have t: "terminal_answer (Inr [\<lparr>status = ''executed''\<rparr>])"
    by (simp add: terminal_answer_def)
  have n: "length example_answers = 4"
    by (simp add: example_answers_def)
  from only_executed_cancels_the_interval
         [of "Inr [\<lparr>status = ''executed''\<rparr>]" example_answers "''0x251b''"] h t n
  show ?thesis by simp
qed

section \<open>The script: the order of its events\<close>

lemma preceded_by_append:
  "preceded_by P Q (t @ t') \<longleftrightarrow> preceded_by P Q t \<and> (list_ex P t \<or> preceded_by P Q t')"
  by (induction t) auto

lemma none_after_append:
  "none_after P Q (t @ t') \<longleftrightarrow>
     none_after P Q t \<and> (if list_ex Q t then list_all (\<lambda>x. \<not> P x) t' else none_after P Q t')"
  by (induction t) auto

lemma preceded_by_absent: "list_all (\<lambda>x. \<not> Q x) t \<Longrightarrow> preceded_by P Q t"
  by (induction t) auto

lemma none_after_absent: "list_all (\<lambda>x. \<not> Q x) t \<Longrightarrow> none_after P Q t"
  by (induction t) auto

lemma none_after_absent': "list_all (\<lambda>x. \<not> P x) t \<Longrightarrow> none_after P Q t"
  by (induction t) auto

lemma fst_and_then:
  "fst (and_then m f) = fst m @ (case snd m of Inl e \<Rightarrow> [] | Inr x \<Rightarrow> fst (f x))"
  by (cases m) (simp add: and_then_def split: sum.splits)

lemma snd_and_then:
  "snd (and_then m f) = (case snd m of Inl e \<Rightarrow> Inl e | Inr x \<Rightarrow> snd (f x))"
  by (cases m) (simp add: and_then_def split: sum.splits)

text \<open>The watcher only sleeps, reads and prints.\<close>

lemma polls_quiet:
  "list_all (\<lambda>x. \<not> is_status_poll x) (polls k ms)"
  "list_all (\<lambda>x. \<not> is_submission x) (polls k ms)"
  by (induction k) simp_all

lemma waitUntilBridged_quiet:
  "list_all (\<lambda>x. \<not> is_status_poll x) (fst (waitUntilBridged toNumber fav b ms attempts))
   \<and> list_all (\<lambda>x. \<not> is_submission x) (fst (waitUntilBridged toNumber fav b ms attempts))"
proof -
  obtain t r where run: "waitUntilBridged toNumber fav b ms attempts = (t, r)"
    by (cases "waitUntilBridged toNumber fav b ms attempts")
  then obtain k where ends: "loop_ends toNumber fav b ms attempts k (Suc k) t r"
    by (rule waitUntilBridged_end)
  from ends have "list_all (\<lambda>x. \<not> is_status_poll x) t \<and> list_all (\<lambda>x. \<not> is_submission x) t"
    unfolding loop_ends_def
    by (elim disjE exE conjE)
       (simp_all add: polls_quiet success_line_def timeout_line_def del: polls.simps)
  with run show ?thesis by simp
qed

text \<open>The poller only ticks, queries, prints and clears its interval.\<close>

lemma status_callback_quiet:
  "list_all (\<lambda>x. \<not> is_watcher_poll x) (fst (status_callback a))
   \<and> list_all (\<lambda>x. \<not> is_submission x) (fst (status_callback a))"
  by (simp add: status_callback_def split: sum.splits list.splits)

lemma poll_quiet:
  "list_all (\<lambda>x. \<not> is_watcher_poll x) (fst (poll h answers))
   \<and> list_all (\<lambda>x. \<not> is_submission x) (fst (poll h answers))"
proof (induction answers)
  case Nil
  show ?case by simp
next
  case (Cons a answers)
  show ?case
  proof (cases "terminal_answer a")
    case True
    then show ?thesis
      by (simp add: poll_step_terminal status_callback_quiet del: poll.simps)
  next
    case False
    with Cons.IH show ?thesis
      by (simp add: poll_step_running status_callback_quiet del: poll.simps)
  qed
qed

lemma module_init_quiet:
  "list_all (\<lambda>x. \<not> is_watcher_poll x) (fst (module_init w))"
  "list_all (\<lambda>x. \<not> is_status_poll x) (fst (module_init w))"
  "list_all (\<lambda>x. \<not> is_submission x) (fst (module_init w))"
  by (simp_all add: module_init_def fst_and_then split: option.splits sum.splits)

lemma genericMessage_submits:
  "snd (genericMessage w) = Inr h \<Longrightarrow> list_ex is_submission (fst (genericMessage w))"
  by (simp add: genericMessage_def fst_and_then snd_and_then split: sum.splits)

lemma genericMessage_order:
  "preceded_by is_submission is_watcher_poll (fst (genericMessage w))"
  "preceded_by is_submission is_status_poll (fst (genericMessage w))"
  "none_after is_watcher_poll is_status_poll (fst (genericMessage w))"
  by (simp_all add: genericMessage_def fst_and_then snd_and_then
        preceded_by_append none_after_append waitUntilBridged_quiet none_after_absent
      split: sum.splits)

lemma fst_script:
  "fst (script w) =
     fst (module_init w) @
     (case snd (module_init w) of
        Inl e \<Rightarrow> []
      | Inr a \<Rightarrow>
          fst (genericMessage w) @
          (case snd (genericMessage w) of
             Inl e \<Rightarrow> []
           | Inr h \<Rightarrow> fst (poll h (status_answers w))))"
  by (cases "module_init w"; cases "genericMessage w")
     (simp add: script_def split: sum.splits)

lemma example_script_run:
  "script example_world =
     ([NewProvider ''https://holesky.drpc.org'', NewProvider ''https://sepolia.drpc.org'',
       Log [Str ''Connected to contract: '', Str ''0x303e46f108ed47bf5a489cf62926fd3d8ddcc72a''],
       Log [Str ''Fetching contract value...''],
       Log [Str ''Sending a generic message transfer...''], ReadNumber,
       Log [Str ''Value before update: '', Big 104], SdkInit, GetFee,
       Log [Str ''Fee for the transfer: '', Obj ''fee''], BuildTransferTransaction,
       SendTransaction,
       Log [Str ''Sent transfer with hash: '', Str ''0x251b''],
       Log [Str ''Waiting for relayers to bridge transaction...''],
       Sleep 15000, ReadNumber, Sleep 15000, ReadNumber, Sleep 15000, ReadNumber,
       Log [Str ''Transaction successfully bridged.''],
       Log [Str ''Value after update: '', DateOf 105],
       SetInterval 5000, ReadNumber,
       Log [Str ''Final value: '', Big 105],
       Tick 5000, GetStatus ''0x251b'', Log [Str ''Waiting for the TX to be indexed''],
       Tick 5000, GetStatus ''0x251b'', Log [Str ''Waiting for the TX to be indexed''],
       Tick 5000, GetStatus ''0x251b'', Log [Str ''Waiting for the TX to be indexed''],
       Tick 5000, GetStatus ''0x251b'', Log [Str ''Waiting for the TX to be indexed''],
       Tick 5000, GetStatus ''0x251b'', Log [Str ''Status of the transfer'', Str ''pending''],
       Tick 5000, GetStatus ''0x251b'', Log [Str ''Status of the transfer'', Str ''executed''],
       ClearInterval], Exit 0)"
  by (simp add: script_def module_init_def genericMessage_def and_then_def example_world_def
        HOLESKY_RPC_URL_def SEPOLIA_RPC_URL_def or_default_def EXECUTE_CONTRACT_ADDRESS_def
        default_intervalDuration_def default_attempts_def example_run success_line_def
        status_period_def status_callback_simps)

section \<open>Claims about the script\<close>

text \<open>
  Claim C5. If \<^verbatim>\<open>PRIVATE_KEY\<close> is not in the environment, the run is the exception
  \<^verbatim>\<open>Missing environment variable: PRIVATE_KEY\<close> and nothing else: its trace is empty, so
  no provider was created, no chain was read, no transaction was sent and no status was
  queried.
\<close>

theorem missing_private_key_fails_before_any_network_call:
  assumes "process_env w ''PRIVATE_KEY'' = None"
  shows "script w = ([], Uncaught (Error ''Missing environment variable: PRIVATE_KEY''))"
  using assms by (simp add: script_def module_init_def)

theorem missing_private_key_fails_before_any_network_call_witness:
  "process_env (example_world\<lparr>process_env := \<lambda>k. None\<rparr>) ''PRIVATE_KEY'' = None
   \<and> script (example_world\<lparr>process_env := \<lambda>k. None\<rparr>) =
       ([], Uncaught (Error ''Missing environment variable: PRIVATE_KEY''))"
  using missing_private_key_fails_before_any_network_call
          [of "example_world\<lparr>process_env := \<lambda>k. None\<rparr>"]
  by simp

text \<open>
  Claim C3, as the specification states it: after the submission the watcher and the
  status poller run side by side, and the status queries do not wait for the watcher to
  end. The script does otherwise: \<^verbatim>\<open>await waitUntilBridged(contractValueBefore)\<close> comes
  before \<^verbatim>\<open>setInterval\<close>. In the example run the watcher polls at 15000, 30000 and 45000
  ms; the interval has a period of 5000 ms, and yet the first status query is made at
  50000 ms, one period after the watcher has ended.
\<close>

theorem status_poller_concurrent_counterexample:
  "times_of is_watcher_poll 0 (fst (script example_world)) = [15000, 30000, 45000]
   \<and> times_of is_status_query 0 (fst (script example_world)) =
        [50000, 55000, 60000, 65000, 70000, 75000]"
  by (simp add: example_script_run)

text \<open>
  Claim C3, amended: in every run of the script, the submission of the transfer comes
  before the first poll of the watcher and before anything the status poller does, and
  the status poller is started only after the watcher has ended: once the interval is
  registered, the watcher polls no more.
\<close>

theorem status_poller_starts_after_watcher:
  "preceded_by is_submission is_watcher_poll (fst (script w))
   \<and> preceded_by is_submission is_status_poll (fst (script w))
   \<and> none_after is_watcher_poll is_status_poll (fst (script w))"
proof -
  have init: "\<not> list_ex is_submission (fst (module_init w))"
    "\<not> list_ex is_status_poll (fst (module_init w))"
    using module_init_quiet [of w] by (simp_all add: list_ex_iff list_all_iff)
  have tp: "list_all (\<lambda>x. \<not> is_watcher_poll x) (fst (poll h (status_answers w)))" for h
    using poll_quiet by blast
  show ?thesis
    unfolding fst_script
    by (simp add: preceded_by_append none_after_append init module_init_quiet
          preceded_by_absent none_after_absent none_after_absent' genericMessage_order
          genericMessage_submits tp
        split: sum.splits)
qed

theorem status_poller_starts_after_watcher_witness:
  "list_ex is_submission (fst (script example_world))
   \<and> list_ex is_watcher_poll (fst (script example_world))
   \<and> list_ex is_status_poll (fst (script example_world))
   \<and> preceded_by is_submission is_watcher_poll (fst (script example_world))
   \<and> preceded_by is_submission is_status_poll (fst (script example_world))
   \<and> none_after is_watcher_poll is_status_poll (fst (script example_world))"
proof -
  have "list_ex is_submission (fst (script example_world))
   \<and> list_ex is_watcher_poll (fst (script example_world))
   \<and> list_ex is_status_poll (fst (script example_world))"
    by (simp add: example_script_run)
  with status_poller_starts_after_watcher [of example_world] show ?thesis by blast
qed

end
